theory Spec2Isabelle
  imports Complex_Main "HOL-Library.Word"
begin

section \<open>The parking registry: data model\<close>

text \<open>
  The registry is the array \<^verbatim>\<open>sampleSlots\<close> of \<^verbatim>\<open>main.js\<close>. Each element is an
  object with the properties \<^verbatim>\<open>id\<close> and \<^verbatim>\<open>status\<close> and, while a vehicle is parked,
  \<^verbatim>\<open>vehicleNumber\<close>, \<^verbatim>\<open>vehicleType\<close> and \<^verbatim>\<open>entryTime\<close>. A property that is absent
  (never set, or removed by \<^verbatim>\<open>delete\<close>) reads as \<^verbatim>\<open>undefined\<close>: it is \<open>None\<close> here.

  The only values \<^verbatim>\<open>status\<close> ever receives are the strings \<^verbatim>\<open>'available'\<close> and
  \<^verbatim>\<open>'occupied'\<close>; they are the two constructors of \<open>status\<close>. A \<^verbatim>\<open>Date\<close> is its time
  value, a whole number of milliseconds. The vehicle type is the string the page
  supplies: the code never restricts it.

  A JavaScript string is a sequence of UTF-16 code units, each of 16 bits.
\<close>

type_synonym jsString = "16 word list"

text \<open>
  The string a literal of ASCII characters denotes: the code unit of an ASCII character
  is its code.
\<close>

definition ascii :: "string \<Rightarrow> jsString" where
  "ascii s = map of_char s"

datatype status = Available | Occupied

record slot =
  slotId :: jsString
  status :: status
  vehicleNumber :: "jsString option"
  vehicleType :: "jsString option"
  entryTime :: "int option"

text \<open>
  The messages \<^verbatim>\<open>showAlert(..., 'error')\<close> displays before a handler returns early.
  \<^item> \<open>EnterSlotId\<close>: 'Please enter a slot ID'
  \<^item> \<open>SlotExists\<close>: 'Slot already exists'
  \<^item> \<open>SlotNotFound\<close>: 'Slot not found'
  \<^item> \<open>SlotOccupied\<close>: 'Cannot remove an occupied slot'
  \<^item> \<open>FillAllFields\<close>: 'Please fill in all fields'
  \<^item> \<open>AlreadyParked\<close>: 'This vehicle is already parked'
  \<^item> \<open>NoAvailableSlots\<close>: 'No available parking slots'
  \<^item> \<open>EnterVehicleNumber\<close>: 'Please enter a vehicle number'
  \<^item> \<open>VehicleNotFound\<close>: 'Vehicle not found in parking'
\<close>

datatype error =
    EnterSlotId
  | SlotExists
  | SlotNotFound
  | SlotOccupied
  | FillAllFields
  | AlreadyParked
  | NoAvailableSlots
  | EnterVehicleNumber
  | VehicleNotFound

subsection \<open>Strings\<close>

text \<open>
  \<^verbatim>\<open>String.prototype.trim\<close> removes, at both ends, the white space and the line
  terminators of the language: tab, line feed, vertical tab, form feed, carriage
  return, space, no-break space, the other space separators of Unicode (U+1680,
  U+2000 to U+200A, U+202F, U+205F, U+3000), the line and paragraph separators (U+2028,
  U+2029) and the byte order mark (U+FEFF). Each of them is one code unit.
\<close>

definition isWhiteSpace :: "16 word \<Rightarrow> bool" where
  "isWhiteSpace u \<longleftrightarrow>
     u \<in> set [0x0009, 0x000A, 0x000B, 0x000C, 0x000D, 0x0020, 0x00A0, 0x1680,
               0x2000, 0x2001, 0x2002, 0x2003, 0x2004, 0x2005, 0x2006, 0x2007, 0x2008,
               0x2009, 0x200A, 0x2028, 0x2029, 0x202F, 0x205F, 0x3000, 0xFEFF]"

definition trim :: "jsString \<Rightarrow> jsString" where
  "trim s = rev (dropWhile isWhiteSpace (rev (dropWhile isWhiteSpace s)))"

text \<open>
  \<^verbatim>\<open>String.prototype.toUpperCase\<close> replaces each character by its upper case of the
  Unicode character database, which has no rule that looks at the neighbours of a
  character. For the characters below U+0100 (ASCII and Latin-1) these are: a to z and
  the accented letters U+00E0 to U+00FE, without the division sign U+00F7, move down by
  0x20; the micro sign U+00B5 becomes the Greek capital mu U+039C; the sharp s U+00DF
  becomes the two letters SS; y with diaeresis U+00FF becomes U+0178; every other
  character stays.
\<close>

definition latin1Upper :: "16 word \<Rightarrow> jsString" where
  "latin1Upper u =
     (if 0x61 \<le> u \<and> u \<le> 0x7A then [u - 0x20]
      else if u = 0xB5 then [0x039C]
      else if u = 0xDF then [0x53, 0x53]
      else if 0xE0 \<le> u \<and> u \<le> 0xFE \<and> u \<noteq> 0xF7 then [u - 0x20]
      else if u = 0xFF then [0x0178]
      else [u])"

text \<open>
  The case mappings of the characters from U+0100 on are those of the Unicode tables
  of the JavaScript engine, which are no part of the sources. They are a parameter:
  \<open>tbl\<close> is what the engine's \<^verbatim>\<open>toUpperCase\<close> returns for a string that has a code unit
  from U+0100 on. Every handler takes \<open>tbl\<close> as its first argument, and what is proved
  below holds for every \<open>tbl\<close>.
\<close>

definition toUpperCase :: "(jsString \<Rightarrow> jsString) \<Rightarrow> jsString \<Rightarrow> jsString" where
  "toUpperCase tbl s =
     (if list_all (\<lambda>u. u < 0x100) s then concat (map latin1Upper s) else tbl s)"

text \<open>
  A run on input below U+0100 never consults the table (\<open>toUpperCase_below_0x100\<close>
  below). Such runs are written with the table that returns its argument.
\<close>

definition noMapping :: "jsString \<Rightarrow> jsString" where
  "noMapping s = s"

subsection \<open>Arrays\<close>

text \<open>
  \<^verbatim>\<open>Array.prototype.findIndex\<close>: the index of the first element the predicate accepts,
  \<open>None\<close> where JavaScript returns -1. \<^verbatim>\<open>find\<close> is \<^const>\<open>List.find\<close> and \<^verbatim>\<open>some\<close>
  is \<^const>\<open>list_ex\<close>.
\<close>

fun findIndex :: "('a \<Rightarrow> bool) \<Rightarrow> 'a list \<Rightarrow> nat option" where
  "findIndex P [] = None"
| "findIndex P (x # xs) = (if P x then Some 0 else map_option Suc (findIndex P xs))"

text \<open>\<^verbatim>\<open>xs.splice(i, 1)\<close> for an index inside the array.\<close>

definition splice1 :: "nat \<Rightarrow> 'a list \<Rightarrow> 'a list" where
  "splice1 i xs = take i xs @ drop (Suc i) xs"

subsection \<open>Numbers\<close>

text \<open>
  The fee is a JavaScript number. Arithmetic with \<^verbatim>\<open>undefined\<close> gives \<^verbatim>\<open>NaN\<close>, which
  is a value of its own here. The other numbers are modelled by the reals: the
  difference of two dates is a whole number of milliseconds, and for differences below
  \<open>2^53\<close> milliseconds the double-precision quotient by 3600000 lies strictly between
  the same two integers as the exact one (or is the same integer), so
  \<^verbatim>\<open>Math.ceil\<close> returns the exact ceiling; its product with 2.5, 1.5 or 4 is exact too.
  The negative zero of JavaScript (the ceiling of a stay between minus one hour and
  zero) is the real 0.
\<close>

datatype number = Number real | NaN

fun ceil :: "number \<Rightarrow> number" where
  "ceil (Number x) = Number (of_int \<lceil>x\<rceil>)"
| "ceil NaN = NaN"

fun times :: "number \<Rightarrow> number \<Rightarrow> number" where
  "times (Number x) (Number y) = Number (x * y)"
| "times _ _ = NaN"

text \<open>
  \<^verbatim>\<open>const parkingRates = { car: 2.50, motorcycle: 1.50, truck: 4.00 }\<close>.
  A lookup \<^verbatim>\<open>parkingRates[t]\<close> of any other \<open>t\<close> is \<^verbatim>\<open>undefined\<close>, or a function or
  object inherited from \<^verbatim>\<open>Object.prototype\<close>; each of them is \<^verbatim>\<open>NaN\<close> in a product.
\<close>

definition parkingRates :: "(jsString \<times> real) list" where
  "parkingRates = [(ascii ''car'', 2.5), (ascii ''motorcycle'', 1.5), (ascii ''truck'', 4)]"

definition rateOf :: "jsString option \<Rightarrow> number" where
  "rateOf t =
     (case t of
        None \<Rightarrow> NaN
      | Some k \<Rightarrow> (case map_of parkingRates k of None \<Rightarrow> NaN | Some r \<Rightarrow> Number r))"

text \<open>\<^verbatim>\<open>(exitTime - entryTime) / (1000 * 60 * 60)\<close>, lines 153 to 155 of \<^verbatim>\<open>operator.js\<close>.\<close>

definition durationHours :: "int option \<Rightarrow> int \<Rightarrow> number" where
  "durationHours entry exitTime =
     (case entry of
        None \<Rightarrow> NaN
      | Some e \<Rightarrow> Number (real_of_int (exitTime - e) / (1000 * 60 * 60)))"

section \<open>The operations\<close>

text \<open>
  Each handler is a function of the case table \<open>tbl\<close>, of the value it reads from its
  input field, of the clock where it reads one, and of the registry. It returns what it
  reports (the alert of an early return, or the values it displays) and the registry it
  leaves behind.
\<close>

subsection \<open>admin.js\<close>

definition addParkingSlot ::
  "(jsString \<Rightarrow> jsString) \<Rightarrow> jsString \<Rightarrow> slot list \<Rightarrow> (error + jsString) \<times> slot list" where
  "addParkingSlot tbl input sampleSlots =
     (let slotId = toUpperCase tbl (trim input) in
      if slotId = [] then (Inl EnterSlotId, sampleSlots)
      else if list_ex (\<lambda>slot. slot.slotId slot = slotId) sampleSlots
        then (Inl SlotExists, sampleSlots)
      else (Inr slotId,
            sampleSlots @ [\<lparr>slotId = slotId, status = Available, vehicleNumber = None,
                             vehicleType = None, entryTime = None\<rparr>]))"

definition removeParkingSlot ::
  "(jsString \<Rightarrow> jsString) \<Rightarrow> jsString \<Rightarrow> slot list \<Rightarrow> (error + jsString) \<times> slot list" where
  "removeParkingSlot tbl input sampleSlots =
     (let slotId = toUpperCase tbl (trim input) in
      if slotId = [] then (Inl EnterSlotId, sampleSlots)
      else case findIndex (\<lambda>slot. slot.slotId slot = slotId) sampleSlots of
        None \<Rightarrow> (Inl SlotNotFound, sampleSlots)
      | Some slotIndex \<Rightarrow>
          if status (sampleSlots ! slotIndex) = Occupied then (Inl SlotOccupied, sampleSlots)
          else (Inr slotId, splice1 slotIndex sampleSlots))"

subsection \<open>operator.js\<close>

text \<open>
  \<^verbatim>\<open>handleParking\<close>: \<^verbatim>\<open>find\<close> returns the array's own element, so the four assignments
  change the array at the position of the first available slot.
\<close>

definition handleParking ::
  "(jsString \<Rightarrow> jsString) \<Rightarrow> int \<Rightarrow> jsString \<Rightarrow> jsString \<Rightarrow> slot list \<Rightarrow>
     (error + jsString) \<times> slot list" where
  "handleParking tbl now input typeInput sampleSlots =
     (let vehicleNumber = toUpperCase tbl (trim input) in
      if vehicleNumber = [] \<or> typeInput = [] then (Inl FillAllFields, sampleSlots)
      else if list_ex (\<lambda>slot. status slot = Occupied \<and> slot.vehicleNumber slot = Some vehicleNumber)
                sampleSlots
        then (Inl AlreadyParked, sampleSlots)
      else case findIndex (\<lambda>slot. status slot = Available) sampleSlots of
        None \<Rightarrow> (Inl NoAvailableSlots, sampleSlots)
      | Some i \<Rightarrow>
          (Inr (slotId (sampleSlots ! i)),
           sampleSlots[i := (sampleSlots ! i)\<lparr>status := Occupied,
                                               vehicleNumber := Some vehicleNumber,
                                               vehicleType := Some typeInput,
                                               entryTime := Some now\<rparr>]))"

text \<open>
  What \<^verbatim>\<open>handleRemoval\<close> shows in the fee panel: the vehicle number, the entry time,
  the exit time it measured the stay to, and the fee.
\<close>

record quote =
  feeVehicle :: jsString
  feeEntryTime :: "int option"
  feeExitTime :: int
  feeTotal :: number

definition handleRemoval ::
  "(jsString \<Rightarrow> jsString) \<Rightarrow> int \<Rightarrow> jsString \<Rightarrow> slot list \<Rightarrow> (error + quote) \<times> slot list" where
  "handleRemoval tbl now input sampleSlots =
     (let vehicleNumber = toUpperCase tbl (trim input) in
      if vehicleNumber = [] then (Inl EnterVehicleNumber, sampleSlots)
      else case find (\<lambda>slot. status slot = Occupied \<and> slot.vehicleNumber slot = Some vehicleNumber)
                  sampleSlots of
        None \<Rightarrow> (Inl VehicleNotFound, sampleSlots)
      | Some vehicleSlot \<Rightarrow>
          (let rate = rateOf (vehicleType vehicleSlot);
               fee = times (ceil (durationHours (entryTime vehicleSlot) now)) rate
           in (Inr \<lparr>feeVehicle = vehicleNumber, feeEntryTime = entryTime vehicleSlot,
                     feeExitTime = now, feeTotal = fee\<rparr>,
               sampleSlots)))"

text \<open>
  \<^verbatim>\<open>confirmPayment\<close> reads the vehicle number from the removal form again and frees the
  first occupied slot that holds it; without such a slot it does nothing.
\<close>

definition confirmPayment :: "(jsString \<Rightarrow> jsString) \<Rightarrow> jsString \<Rightarrow> slot list \<Rightarrow> slot list" where
  "confirmPayment tbl input sampleSlots =
     (let vehicleNumber = toUpperCase tbl (trim input) in
      case findIndex (\<lambda>slot. status slot = Occupied \<and> slot.vehicleNumber slot = Some vehicleNumber)
             sampleSlots of
        None \<Rightarrow> sampleSlots
      | Some slotIndex \<Rightarrow>
          sampleSlots[slotIndex := (sampleSlots ! slotIndex)\<lparr>status := Available,
                                                               vehicleNumber := None,
                                                               vehicleType := None,
                                                               entryTime := None\<rparr>])"

text \<open>
  \<^verbatim>\<open>cancelRemoval\<close> resets the removal form and hides the fee panel. It has no statement
  that reads or writes \<^verbatim>\<open>sampleSlots\<close>.
\<close>

definition cancelRemoval :: "slot list \<Rightarrow> slot list" where
  "cancelRemoval sampleSlots = sampleSlots"

subsection \<open>The registry when the page has loaded\<close>

text \<open>Lines 149 to 154 of \<^verbatim>\<open>main.js\<close>; \<open>t0\<close> is the time of loading.\<close>

definition initialSlots :: "int \<Rightarrow> slot list" where
  "initialSlots t0 =
     [\<lparr>slotId = ascii ''A1'', status = Available, vehicleNumber = None, vehicleType = None,
       entryTime = None\<rparr>,
      \<lparr>slotId = ascii ''A2'', status = Available, vehicleNumber = None, vehicleType = None,
       entryTime = None\<rparr>,
      \<lparr>slotId = ascii ''B1'', status = Occupied, vehicleNumber = Some (ascii ''ABC123''),
       vehicleType = Some (ascii ''car''), entryTime = Some t0\<rparr>,
      \<lparr>slotId = ascii ''B2'', status = Available, vehicleNumber = None, vehicleType = None,
       entryTime = None\<rparr>]"

text \<open>The registries the page can reach from there, by any sequence of the operations.\<close>

inductive reachable :: "(jsString \<Rightarrow> jsString) \<Rightarrow> slot list \<Rightarrow> bool" where
  init: "reachable tbl (initialSlots t0)"
| add: "reachable tbl s \<Longrightarrow> reachable tbl (snd (addParkingSlot tbl input s))"
| remove: "reachable tbl s \<Longrightarrow> reachable tbl (snd (removeParkingSlot tbl input s))"
| park: "reachable tbl s \<Longrightarrow> reachable tbl (snd (handleParking tbl now input typeInput s))"
| quote: "reachable tbl s \<Longrightarrow> reachable tbl (snd (handleRemoval tbl now input s))"
| confirm: "reachable tbl s \<Longrightarrow> reachable tbl (confirmPayment tbl input s)"
| cancel: "reachable tbl s \<Longrightarrow> reachable tbl (cancelRemoval s)"

subsection \<open>Parked vehicles\<close>

text \<open>
  The test both \<^verbatim>\<open>handleParking\<close> and the removal handlers apply to a slot: it is
  occupied and holds the vehicle number \<open>n\<close>.
\<close>

abbreviation parkedAs :: "jsString \<Rightarrow> slot \<Rightarrow> bool" where
  "parkedAs n \<equiv> (\<lambda>slot. status slot = Occupied \<and> vehicleNumber slot = Some n)"

text \<open>
  The invariant of the registry: an occupied slot holds a vehicle number, which is not
  empty, and is the only occupied slot that holds it.
\<close>

definition invariant :: "slot list \<Rightarrow> bool" where
  "invariant slots \<longleftrightarrow>
     (\<forall>s \<in> set slots. status s = Occupied \<longrightarrow>
        vehicleNumber s \<noteq> None \<and> vehicleNumber s \<noteq> Some [] \<and>
        length (filter (\<lambda>slot. status slot = Occupied \<and> vehicleNumber slot = vehicleNumber s)
                  slots) \<le> 1)"

section \<open>Strings: what the normal form ignores\<close>

text \<open>
  On a string below U+0100 the result of \<^verbatim>\<open>toUpperCase\<close> is the same for every table.
\<close>

lemma toUpperCase_below_0x100:
  "list_all (\<lambda>u. u < 0x100) s \<Longrightarrow> toUpperCase tbl s = toUpperCase tbl' s"
  by (simp add: toUpperCase_def)

text \<open>White space around a string does not change what \<^verbatim>\<open>trim\<close> returns.\<close>

lemma trim_white_space_around:
  assumes "\<forall>c \<in> set ws. isWhiteSpace c" and "\<forall>c \<in> set ws'. isWhiteSpace c"
  shows "trim (ws @ s @ ws') = trim s"
proof -
  have front: "dropWhile isWhiteSpace (ws @ xs) = dropWhile isWhiteSpace xs" for xs
    using assms(1) by (simp add: dropWhile_append)
  have rear: "dropWhile isWhiteSpace (rev ws' @ xs) = dropWhile isWhiteSpace xs" for xs
    using assms(2) by (simp add: dropWhile_append)
  have "dropWhile isWhiteSpace (rev (dropWhile isWhiteSpace (s @ ws'))) =
        dropWhile isWhiteSpace (rev (dropWhile isWhiteSpace s))"
  proof (cases "\<forall>c \<in> set s. isWhiteSpace c")
    case True
    with assms(2) have "dropWhile isWhiteSpace (s @ ws') = []" "dropWhile isWhiteSpace s = []"
      by (simp_all add: dropWhile_eq_Nil_conv)
    then show ?thesis by (simp only:)
  next
    case False
    then have "dropWhile isWhiteSpace (s @ ws') = dropWhile isWhiteSpace s @ ws'"
      by (auto simp: dropWhile_append dropWhile_append1)
    then show ?thesis by (simp add: rear)
  qed
  then show ?thesis by (simp add: trim_def front)
qed

section \<open>Arrays: search, update and removal\<close>

lemma findIndex_Some:
  "findIndex P xs = Some i \<Longrightarrow> i < length xs \<and> P (xs ! i) \<and> (\<forall>j<i. \<not> P (xs ! j))"
proof (induction xs arbitrary: i)
  case Nil
  then show ?case by simp
next
  case (Cons x xs)
  show ?case
  proof (cases "P x")
    case True
    with Cons.prems show ?thesis by simp
  next
    case False
    with Cons.prems obtain k where k: "findIndex P xs = Some k" "i = Suc k"
      by auto
    from Cons.IH [OF k(1)] False k(2) show ?thesis
      by (auto simp: less_Suc_eq_0_disj)
  qed
qed

lemma findIndex_None: "findIndex P xs = None \<longleftrightarrow> \<not> list_ex P xs"
  by (induction xs) auto

lemma findIndex_first:
  "i < length xs \<Longrightarrow> P (xs ! i) \<Longrightarrow> (\<forall>j<i. \<not> P (xs ! j)) \<Longrightarrow> findIndex P xs = Some i"
proof (induction xs arbitrary: i)
  case Nil
  then show ?case by simp
next
  case (Cons x xs)
  show ?case
  proof (cases i)
    case 0
    with Cons.prems show ?thesis by simp
  next
    case (Suc k)
    with Cons.prems have "\<not> P x" by auto
    moreover from Cons.prems Suc have "findIndex P xs = Some k"
      by (intro Cons.IH) auto
    ultimately show ?thesis using Suc by simp
  qed
qed

lemma find_findIndex: "find P xs = map_option (\<lambda>i. xs ! i) (findIndex P xs)"
  by (induction xs) (auto simp: option.map_comp comp_def)

lemma at_most_one_index:
  "length (filter P xs) \<le> 1 \<Longrightarrow> i < length xs \<Longrightarrow> j < length xs \<Longrightarrow> P (xs ! i) \<Longrightarrow> P (xs ! j)
   \<Longrightarrow> i = j"
proof (induction xs arbitrary: i j)
  case Nil
  then show ?case by simp
next
  case (Cons x xs)
  have mem: "\<And>k. k < length xs \<Longrightarrow> P (xs ! k) \<Longrightarrow> filter P xs \<noteq> []"
    by (metis filter_empty_conv nth_mem)
  show ?case
  proof (cases "P x")
    case True
    with Cons.prems(1) have "filter P xs = []" by simp
    with mem Cons.prems show ?thesis
      by (cases i; cases j) auto
  next
    case False
    with Cons.prems Cons.IH show ?thesis
      by (cases i; cases j) auto
  qed
qed

lemma filter_update_le:
  "length (filter P (xs[k := v])) \<le> length (filter P xs) + (if P v then 1 else 0)"
proof (cases "k < length xs")
  case True
  have "xs = take k xs @ xs ! k # drop (Suc k) xs"
    using True by (rule id_take_nth_drop)
  then have "length (filter P xs) =
      length (filter P (take k xs)) + length (filter P [xs ! k]) + length (filter P (drop (Suc k) xs))"
    by (metis append_Cons append_Nil filter_append length_append add.assoc)
  moreover have "length (filter P (xs[k := v])) =
      length (filter P (take k xs)) + length (filter P [v]) + length (filter P (drop (Suc k) xs))"
    using True by (simp add: upd_conv_take_nth_drop)
  ultimately show ?thesis by simp
next
  case False
  then have "xs[k := v] = xs" by (simp add: not_less list_update_beyond)
  then show ?thesis by simp
qed

lemma filter_splice1_le: "length (filter P (splice1 k xs)) \<le> length (filter P xs)"
proof -
  have "length (filter P (take k xs)) + length (filter P (drop k xs)) = length (filter P xs)"
    by (metis append_take_drop_id filter_append length_append)
  moreover have "length (filter P (drop (Suc k) xs)) \<le> length (filter P (drop k xs))"
  proof (cases "k < length xs")
    case True
    then have "drop k xs = xs ! k # drop (Suc k) xs" by (rule Cons_nth_drop_Suc [symmetric])
    then show ?thesis by simp
  next
    case False
    then show ?thesis by simp
  qed
  ultimately show ?thesis by (simp add: splice1_def)
qed

section \<open>The invariant holds in every reachable tbl registry\<close>

lemma invariant_iff:
  "invariant slots \<longleftrightarrow>
     (\<forall>n. length (filter (parkedAs n) slots) \<le> 1) \<and>
     (\<forall>s \<in> set slots. status s = Occupied \<longrightarrow> (\<exists>n. vehicleNumber s = Some n \<and> n \<noteq> []))"
proof
  assume inv: "invariant slots"
  have "length (filter (parkedAs n) slots) \<le> 1" for n
  proof (cases "filter (parkedAs n) slots = []")
    case True
    then show ?thesis by simp
  next
    case False
    then obtain s where s: "s \<in> set slots" "parkedAs n s"
      by (auto simp: filter_empty_conv)
    with inv have "length (filter (\<lambda>slot. status slot = Occupied \<and>
        vehicleNumber slot = vehicleNumber s) slots) \<le> 1"
      unfolding invariant_def by blast
    with s(2) show ?thesis by simp
  qed
  moreover have "\<exists>n. vehicleNumber s = Some n \<and> n \<noteq> []"
    if "s \<in> set slots" "status s = Occupied" for s
    using inv that by (cases "vehicleNumber s") (auto simp: invariant_def)
  ultimately show "(\<forall>n. length (filter (parkedAs n) slots) \<le> 1) \<and>
     (\<forall>s \<in> set slots. status s = Occupied \<longrightarrow> (\<exists>n. vehicleNumber s = Some n \<and> n \<noteq> []))"
    by blast
next
  assume "(\<forall>n. length (filter (parkedAs n) slots) \<le> 1) \<and>
     (\<forall>s \<in> set slots. status s = Occupied \<longrightarrow> (\<exists>n. vehicleNumber s = Some n \<and> n \<noteq> []))"
  then show "invariant slots"
    unfolding invariant_def by fastforce
qed

lemma set_splice1: "set (splice1 k xs) \<subseteq> set xs"
  unfolding splice1_def using set_take_subset [of k xs] set_drop_subset [of "Suc k" xs] by auto

lemma invariant_init: "invariant (initialSlots t0)"
  by (simp add: invariant_def initialSlots_def ascii_def)

lemma invariant_add: "invariant s \<Longrightarrow> invariant (snd (addParkingSlot tbl input s))"
  by (auto simp: invariant_iff addParkingSlot_def Let_def)

lemma invariant_remove:
  assumes "invariant s" shows "invariant (snd (removeParkingSlot tbl input s))"
proof -
  have "invariant (splice1 k s)" for k
    unfolding invariant_iff
  proof (intro conjI allI ballI impI)
    fix n show "length (filter (parkedAs n) (splice1 k s)) \<le> 1"
      using filter_splice1_le [of "parkedAs n" k s] assms by (auto simp: invariant_iff intro: order_trans)
  next
    fix x assume "x \<in> set (splice1 k s)" "status x = Occupied"
    with set_splice1 [of k s] assms show "\<exists>n. vehicleNumber x = Some n \<and> n \<noteq> []"
      by (auto simp: invariant_iff)
  qed
  with assms show ?thesis
    by (simp add: removeParkingSlot_def Let_def split: option.splits)
qed

lemma invariant_park:
  assumes "invariant s" shows "invariant (snd (handleParking tbl now input t s))"
proof -
  let ?n = "toUpperCase tbl (trim input)"
  have "invariant (s[i := v])"
    if v: "status v = Occupied" "vehicleNumber v = Some ?n" and ne: "?n \<noteq> []"
      and fresh: "\<not> list_ex (parkedAs ?n) s" for i v
    unfolding invariant_iff
  proof (intro conjI allI ballI impI)
    fix n
    show "length (filter (parkedAs n) (s[i := v])) \<le> 1"
    proof (cases "n = ?n")
      case True
      from fresh have "filter (parkedAs ?n) s = []"
        by (simp add: list_ex_iff filter_empty_conv)
      with filter_update_le [of "parkedAs ?n" s i v] True show ?thesis
        by (simp split: if_splits)
    next
      case False
      with v have "\<not> parkedAs n v" by simp
      with filter_update_le [of "parkedAs n" s i v] assms show ?thesis
        by (auto simp: invariant_iff intro: order_trans)
    qed
  next
    fix x assume "x \<in> set (s[i := v])" "status x = Occupied"
    with set_update_subset_insert [of s i v] assms v ne
    show "\<exists>n. vehicleNumber x = Some n \<and> n \<noteq> []"
      by (auto simp: invariant_iff)
  qed
  with assms show ?thesis
    by (simp add: handleParking_def Let_def split: option.splits)
qed

lemma invariant_confirm:
  assumes "invariant s" shows "invariant (confirmPayment tbl input s)"
proof -
  have "invariant (s[i := v])" if v: "status v = Available" for i v
    unfolding invariant_iff
  proof (intro conjI allI ballI impI)
    fix n
    from v have "\<not> parkedAs n v" by simp
    with filter_update_le [of "parkedAs n" s i v] assms
    show "length (filter (parkedAs n) (s[i := v])) \<le> 1"
      by (auto simp: invariant_iff intro: order_trans)
  next
    fix x assume "x \<in> set (s[i := v])" "status x = Occupied"
    with set_update_subset_insert [of s i v] assms v
    show "\<exists>n. vehicleNumber x = Some n \<and> n \<noteq> []"
      by (auto simp: invariant_iff)
  qed
  with assms show ?thesis
    by (simp add: confirmPayment_def Let_def split: option.splits)
qed

lemma invariant_quote: "invariant s \<Longrightarrow> invariant (snd (handleRemoval tbl now input s))"
  by (simp add: handleRemoval_def Let_def split: option.splits)

lemma reachable_invariant: "reachable tbl s \<Longrightarrow> invariant s"
proof (induction rule: reachable.induct)
  case (init t0)
  show ?case by (rule invariant_init)
next
  case (add s input)
  then show ?case by (simp add: invariant_add)
next
  case (remove s input)
  then show ?case by (simp add: invariant_remove)
next
  case (park s now input typeInput)
  then show ?case by (simp add: invariant_park)
next
  case (quote s now input)
  then show ?case by (simp add: invariant_quote)
next
  case (confirm s input)
  then show ?case by (simp add: invariant_confirm)
next
  case (cancel s)
  then show ?case by (simp add: cancelRemoval_def)
qed

section \<open>Admission\<close>

text \<open>The definitions a concrete run unfolds.\<close>

lemmas evals = toUpperCase_def trim_def isWhiteSpace_def latin1Upper_def ascii_def initialSlots_def Let_def

text \<open>
  With an available slot, a vehicle number that is not empty after normalisation and
  not yet parked, and a vehicle type that is not empty, \<^verbatim>\<open>handleParking\<close> passes its
  three checks and writes to the first available slot of the array.
\<close>

lemma handleParking_success:
  assumes avail: "list_ex (\<lambda>s. status s = Available) slots"
    and ne: "toUpperCase tbl (trim input) \<noteq> []" "t \<noteq> []"
    and fresh: "\<not> list_ex (parkedAs (toUpperCase tbl (trim input))) slots"
  shows "\<exists>i<length slots. status (slots ! i) = Available \<and> (\<forall>j<i. status (slots ! j) \<noteq> Available) \<and>
     handleParking tbl now input t slots =
       (Inr (slotId (slots ! i)),
        slots[i := (slots ! i)\<lparr>status := Occupied, vehicleNumber := Some (toUpperCase tbl (trim input)),
                                 vehicleType := Some t, entryTime := Some now\<rparr>])"
proof -
  from avail obtain i where i: "findIndex (\<lambda>s. status s = Available) slots = Some i"
    using findIndex_None [of "\<lambda>s. status s = Available" slots]
    by (cases "findIndex (\<lambda>s. status s = Available) slots") auto
  from findIndex_Some [OF i] have "i < length slots" "status (slots ! i) = Available"
    "\<forall>j<i. status (slots ! j) \<noteq> Available" by auto
  moreover from ne fresh i have "handleParking tbl now input t slots =
       (Inr (slotId (slots ! i)),
        slots[i := (slots ! i)\<lparr>status := Occupied, vehicleNumber := Some (toUpperCase tbl (trim input)),
                                 vehicleType := Some t, entryTime := Some now\<rparr>])"
    by (simp add: handleParking_def Let_def)
  ultimately show ?thesis by blast
qed

text \<open>
  C1. For every registry with at least one available slot, every vehicle number that is
  not empty once trimmed and capitalised and that no occupied slot holds, and every
  vehicle type that is not empty, \<^verbatim>\<open>handleParking\<close> chooses the first available slot
  in array order (no slot before it is available), marks it occupied, stamps its entry
  time with the current time and returns its id; no other slot changes. The array order
  is the order of insertion: \<^verbatim>\<open>addParkingSlot\<close> appends at the end.
\<close>

theorem admitVehicle_first_available:
  assumes "list_ex (\<lambda>s. status s = Available) slots"
    and "toUpperCase tbl (trim input) \<noteq> []" and "t \<noteq> []"
    and "\<not> list_ex (parkedAs (toUpperCase tbl (trim input))) slots"
  shows "\<exists>i<length slots.
     status (slots ! i) = Available \<and> (\<forall>j<i. status (slots ! j) \<noteq> Available) \<and>
     handleParking tbl now input t slots =
       (Inr (slotId (slots ! i)),
        slots[i := (slots ! i)\<lparr>status := Occupied, vehicleNumber := Some (toUpperCase tbl (trim input)),
                                 vehicleType := Some t, entryTime := Some now\<rparr>]) \<and>
     status (snd (handleParking tbl now input t slots) ! i) = Occupied \<and>
     entryTime (snd (handleParking tbl now input t slots) ! i) = Some now"
proof -
  from handleParking_success [OF assms, where now = now] obtain i where i: "i < length slots"
    "status (slots ! i) = Available" "\<forall>j<i. status (slots ! j) \<noteq> Available"
    "handleParking tbl now input t slots =
       (Inr (slotId (slots ! i)),
        slots[i := (slots ! i)\<lparr>status := Occupied, vehicleNumber := Some (toUpperCase tbl (trim input)),
                                 vehicleType := Some t, entryTime := Some now\<rparr>])"
    by blast
  from i(1) i(4) have "status (snd (handleParking tbl now input t slots) ! i) = Occupied"
    "entryTime (snd (handleParking tbl now input t slots) ! i) = Some now"
    by simp_all
  with i show ?thesis by blast
qed

theorem admitVehicle_first_available_witness:
  "handleParking noMapping 5 (0xA0 # ascii ''xy 1 '') (ascii ''car'') (snd (handleParking noMapping 1 (ascii ''v1'') (ascii ''truck'') (initialSlots 0))) =
     (Inr (ascii ''A2''),
      [\<lparr>slotId = ascii ''A1'', status = Occupied, vehicleNumber = Some (ascii ''V1''),
        vehicleType = Some (ascii ''truck''), entryTime = Some 1\<rparr>,
       \<lparr>slotId = ascii ''A2'', status = Occupied, vehicleNumber = Some (ascii ''XY 1''),
        vehicleType = Some (ascii ''car''), entryTime = Some 5\<rparr>,
       \<lparr>slotId = ascii ''B1'', status = Occupied, vehicleNumber = Some (ascii ''ABC123''),
        vehicleType = Some (ascii ''car''), entryTime = Some 0\<rparr>,
       \<lparr>slotId = ascii ''B2'', status = Available, vehicleNumber = None, vehicleType = None,
        entryTime = None\<rparr>])"
proof -
  define s where "s = snd (handleParking noMapping 1 (ascii ''v1'') (ascii ''truck'') (initialSlots 0))"
  have s: "s =
      [\<lparr>slotId = ascii ''A1'', status = Occupied, vehicleNumber = Some (ascii ''V1''),
        vehicleType = Some (ascii ''truck''), entryTime = Some 1\<rparr>,
       \<lparr>slotId = ascii ''A2'', status = Available, vehicleNumber = None, vehicleType = None,
        entryTime = None\<rparr>,
       \<lparr>slotId = ascii ''B1'', status = Occupied, vehicleNumber = Some (ascii ''ABC123''),
        vehicleType = Some (ascii ''car''), entryTime = Some 0\<rparr>,
       \<lparr>slotId = ascii ''B2'', status = Available, vehicleNumber = None, vehicleType = None,
        entryTime = None\<rparr>]"
    unfolding s_def by (simp add: handleParking_def evals)
  have h1: "list_ex (\<lambda>s. status s = Available) s"
    unfolding s by simp
  have h2: "toUpperCase noMapping (trim (0xA0 # ascii ''xy 1 '')) \<noteq> []"
    by (simp add: evals)
  have h3: "ascii ''car'' \<noteq> []" by (simp add: ascii_def)
  have h4: "\<not> list_ex (parkedAs (toUpperCase noMapping (trim (0xA0 # ascii ''xy 1 '')))) s"
    unfolding s by (simp add: evals)
  from admitVehicle_first_available [OF h1 h2 h3 h4, where now = 5]
  obtain i where i: "i < length s" "status (s ! i) = Available"
    "\<forall>j<i. status (s ! j) \<noteq> Available"
    "handleParking noMapping 5 (0xA0 # ascii ''xy 1 '') (ascii ''car'') s =
       (Inr (slotId (s ! i)),
        s[i := (s ! i)\<lparr>status := Occupied,
                        vehicleNumber := Some (toUpperCase noMapping (trim (0xA0 # ascii ''xy 1 ''))),
                        vehicleType := Some (ascii ''car''), entryTime := Some 5\<rparr>])"
    by blast
  from i(1) have "i = 0 \<or> i = 1 \<or> i = 2 \<or> i = 3"
    unfolding s by auto
  with i(2) have "i = 1 \<or> i = 3"
    unfolding s by auto
  moreover have "i \<noteq> 3"
  proof
    assume "i = 3"
    with i(3) have "status (s ! 1) \<noteq> Available" by simp
    then show False unfolding s by simp
  qed
  ultimately have "i = 1" by simp
  with i(4) show ?thesis
    unfolding s_def [symmetric] unfolding s by (simp add: evals)
qed

text \<open>
  C10. Admission asks of the vehicle type only that it is not empty: for every string
  \<open>t\<close> that is not empty, whether a key of \<^verbatim>\<open>parkingRates\<close> or not, admission succeeds
  (given an available slot and a vehicle number that is not empty and not yet parked)
  and the chosen slot stores \<open>t\<close> itself, neither trimmed nor capitalised, while the
  vehicle number is stored trimmed and capitalised.
\<close>

theorem vehicleType_stored_verbatim:
  assumes "list_ex (\<lambda>s. status s = Available) slots"
    and "toUpperCase tbl (trim input) \<noteq> []"
    and "\<not> list_ex (parkedAs (toUpperCase tbl (trim input))) slots"
    and "t \<noteq> []"
  shows "\<exists>i<length slots.
     fst (handleParking tbl now input t slots) = Inr (slotId (slots ! i)) \<and>
     status (slots ! i) = Available \<and>
     vehicleType (snd (handleParking tbl now input t slots) ! i) = Some t \<and>
     vehicleNumber (snd (handleParking tbl now input t slots) ! i) = Some (toUpperCase tbl (trim input))"
proof -
  from handleParking_success [OF assms(1,2,4,3), where now = now] obtain i where i: "i < length slots"
    "status (slots ! i) = Available"
    "handleParking tbl now input t slots =
       (Inr (slotId (slots ! i)),
        slots[i := (slots ! i)\<lparr>status := Occupied, vehicleNumber := Some (toUpperCase tbl (trim input)),
                                 vehicleType := Some t, entryTime := Some now\<rparr>])"
    by blast
  from i(1) i(3) have "fst (handleParking tbl now input t slots) = Inr (slotId (slots ! i))"
    "vehicleType (snd (handleParking tbl now input t slots) ! i) = Some t"
    "vehicleNumber (snd (handleParking tbl now input t slots) ! i) = Some (toUpperCase tbl (trim input))"
    by simp_all
  with i(1,2) show ?thesis by blast
qed

theorem vehicleType_stored_verbatim_witness:
  "map_of parkingRates (ascii '' Van '') = None \<and>
   (\<exists>i<length (initialSlots 0).
     fst (handleParking noMapping 5 [0xA0, 0xE9, 0x31] (ascii '' Van '') (initialSlots 0)) = Inr (slotId (initialSlots 0 ! i)) \<and>
     status (initialSlots 0 ! i) = Available \<and>
     vehicleType (snd (handleParking noMapping 5 [0xA0, 0xE9, 0x31] (ascii '' Van '') (initialSlots 0)) ! i) = Some (ascii '' Van '') \<and>
     vehicleNumber (snd (handleParking noMapping 5 [0xA0, 0xE9, 0x31] (ascii '' Van '') (initialSlots 0)) ! i) = Some [0xC9, 0x31])"
proof -
  have h1: "list_ex (\<lambda>s. status s = Available) (initialSlots 0)"
    by (simp add: initialSlots_def)
  have h2: "toUpperCase noMapping (trim [0xA0, 0xE9, 0x31]) \<noteq> []"
    by (simp add: evals)
  have h3: "\<not> list_ex (parkedAs (toUpperCase noMapping (trim [0xA0, 0xE9, 0x31]))) (initialSlots 0)"
    by (simp add: evals)
  have h4: "ascii '' Van '' \<noteq> []" by (simp add: ascii_def)
  have n: "toUpperCase noMapping (trim [0xA0, 0xE9, 0x31]) = [0xC9, 0x31]" by (simp add: evals)
  have "map_of parkingRates (ascii '' Van '') = None" by (simp add: parkingRates_def ascii_def)
  with vehicleType_stored_verbatim [OF h1 h2 h3 h4, where now = 5] n show ?thesis by simp
qed

section \<open>The fee quote\<close>

lemma rate_positive: "map_of parkingRates t = Some r \<Longrightarrow> 0 < r"
  by (auto simp: parkingRates_def ascii_def split: if_splits)

lemma handleRemoval_quote:
  assumes "toUpperCase tbl (trim input) \<noteq> []"
    and "find (parkedAs (toUpperCase tbl (trim input))) slots = Some v"
  shows "handleRemoval tbl now input slots =
     (Inr \<lparr>feeVehicle = toUpperCase tbl (trim input), feeEntryTime = entryTime v, feeExitTime = now,
            feeTotal = times (ceil (durationHours (entryTime v) now)) (rateOf (vehicleType v))\<rparr>,
      slots)"
  using assms by (simp add: handleRemoval_def Let_def)

text \<open>
  C2. When the first occupied slot holding the vehicle number has entry time \<open>e\<close> and a
  type \<open>t\<close> with rate \<open>r\<close> in \<^verbatim>\<open>parkingRates\<close>, and the clock reads \<open>now \<ge> e\<close>, the
  quote's fee is \<open>h * r\<close>, where \<open>h\<close> is the ceiling of \<open>(now - e) / 3600000\<close>: the
  least whole number of hours that covers the stay. A stay of length zero costs 0, and
  a stay of 61 minutes of a car costs 5.
\<close>

theorem fee_is_ceiling_hours_times_rate:
  assumes "toUpperCase tbl (trim input) \<noteq> []"
    and "find (parkedAs (toUpperCase tbl (trim input))) slots = Some v"
    and "entryTime v = Some e" and "vehicleType v = Some t" and "map_of parkingRates t = Some r"
    and "e \<le> now"
  shows "\<exists>q h. handleRemoval tbl now input slots = (Inr q, slots) \<and>
     feeTotal q = Number (of_int h * r) \<and>
     h = \<lceil>real_of_int (now - e) / 3600000\<rceil> \<and>
     0 \<le> h \<and> (h - 1) * 3600000 < now - e \<and> now - e \<le> h * 3600000 \<and>
     (now = e \<longrightarrow> feeTotal q = Number 0) \<and>
     (now - e = 61 * 60000 \<and> t = ascii ''car'' \<longrightarrow> feeTotal q = Number 5)"
proof -
  define h where "h = \<lceil>real_of_int (now - e) / 3600000\<rceil>"
  define q where "q = \<lparr>feeVehicle = toUpperCase tbl (trim input), feeEntryTime = entryTime v,
     feeExitTime = now, feeTotal = times (ceil (durationHours (entryTime v) now)) (rateOf (vehicleType v))\<rparr>"
  have run: "handleRemoval tbl now input slots = (Inr q, slots)"
    unfolding q_def using assms(1,2) by (rule handleRemoval_quote)
  have fee: "feeTotal q = Number (of_int h * r)"
    using assms(3,4,5) by (simp add: q_def h_def durationHours_def rateOf_def)
  have nonneg: "0 \<le> h"
    using assms(6) by (simp add: h_def)
  have "real_of_int (h - 1) < real_of_int (now - e) / 3600000"
    unfolding h_def by linarith
  then have "real_of_int ((h - 1) * 3600000) < real_of_int (now - e)"
    by (simp add: field_simps)
  then have lower: "(h - 1) * 3600000 < now - e"
    by (simp only: of_int_less_iff)
  have "real_of_int (now - e) / 3600000 \<le> real_of_int h"
    unfolding h_def by linarith
  then have "real_of_int (now - e) \<le> real_of_int (h * 3600000)"
    by (simp add: field_simps)
  then have upper: "now - e \<le> h * 3600000"
    by (simp only: of_int_le_iff)
  have zero: "now = e \<longrightarrow> feeTotal q = Number 0"
    using fee by (simp add: h_def)
  have car: "now - e = 61 * 60000 \<and> t = ascii ''car'' \<longrightarrow> feeTotal q = Number 5"
  proof
    assume a: "now - e = 61 * 60000 \<and> t = ascii ''car''"
    then have "h = 2" by (simp add: h_def)
    moreover from a assms(5) have "r = 2.5" by (simp add: parkingRates_def ascii_def)
    ultimately show "feeTotal q = Number 5" using fee by simp
  qed
  from run fee nonneg lower upper zero car h_def show ?thesis by blast
qed

theorem fee_is_ceiling_hours_times_rate_witness:
  "(\<exists>q. handleRemoval noMapping 3660000 (ascii ''abc123'') (initialSlots 0) = (Inr q, initialSlots 0) \<and>
        feeTotal q = Number 5) \<and>
   (\<exists>q. handleRemoval noMapping 1000 (ascii ''abc123'') (initialSlots 1000) = (Inr q, initialSlots 1000) \<and>
        feeTotal q = Number 0) \<and>
   (\<exists>q. handleRemoval noMapping 1001 (ascii ''abc123'') (initialSlots 1000) = (Inr q, initialSlots 1000) \<and>
        feeTotal q = Number 2.5)"
proof -
  have h1: "toUpperCase noMapping (trim (ascii ''abc123'')) \<noteq> []" by (simp add: evals)
  have h2: "find (parkedAs (toUpperCase noMapping (trim (ascii ''abc123'')))) (initialSlots t0) =
      Some \<lparr>slotId = ascii ''B1'', status = Occupied, vehicleNumber = Some (ascii ''ABC123''),
            vehicleType = Some (ascii ''car''), entryTime = Some t0\<rparr>" for t0
    by (simp add: evals)
  have h5: "map_of parkingRates (ascii ''car'') = Some 2.5" by (simp add: parkingRates_def ascii_def)
  have h6a: "(0::int) \<le> 3660000" and h6b: "(1000::int) \<le> 1000" and h6c: "(1000::int) \<le> 1001"
    by simp_all
  have a: "\<exists>q. handleRemoval noMapping 3660000 (ascii ''abc123'') (initialSlots 0) = (Inr q, initialSlots 0) \<and>
        feeTotal q = Number 5"
    using fee_is_ceiling_hours_times_rate [OF h1 h2 [of 0] _ _ h5 h6a] by auto
  have b: "\<exists>q. handleRemoval noMapping 1000 (ascii ''abc123'') (initialSlots 1000) = (Inr q, initialSlots 1000) \<and>
        feeTotal q = Number 0"
    using fee_is_ceiling_hours_times_rate [OF h1 h2 [of 1000] _ _ h5 h6b] by auto
  have c: "\<lceil>1 / 3600000 :: real\<rceil> = 1"
    by (rule ceiling_unique) simp_all
  have d: "\<exists>q. handleRemoval noMapping 1001 (ascii ''abc123'') (initialSlots 1000) = (Inr q, initialSlots 1000) \<and>
        feeTotal q = Number 2.5"
    using fee_is_ceiling_hours_times_rate [OF h1 h2 [of 1000] _ _ h5 h6c] c by auto
  from a b d show ?thesis by blast
qed

text \<open>
  C3. The handler never compares the two times. With \<open>now < e\<close> (the clock was set back)
  and a type of \<^verbatim>\<open>parkingRates\<close> the quote is given all the same: its fee is the ceiling
  of the negative number of hours times the rate, a number that is zero or negative.
  At the registry loaded at time 7200000 and the clock at 0 the fee of the car is -5.
\<close>

theorem negative_stay_is_quoted:
  assumes "toUpperCase tbl (trim input) \<noteq> []"
    and "find (parkedAs (toUpperCase tbl (trim input))) slots = Some v"
    and "entryTime v = Some e" and "vehicleType v = Some t" and "map_of parkingRates t = Some r"
    and "now < e"
  shows "\<exists>q x. handleRemoval tbl now input slots = (Inr q, slots) \<and>
     feeTotal q = Number x \<and> x = of_int \<lceil>real_of_int (now - e) / 3600000\<rceil> * r \<and> x \<le> 0"
proof -
  define h where "h = \<lceil>real_of_int (now - e) / 3600000\<rceil>"
  define q where "q = \<lparr>feeVehicle = toUpperCase tbl (trim input), feeEntryTime = entryTime v,
     feeExitTime = now, feeTotal = times (ceil (durationHours (entryTime v) now)) (rateOf (vehicleType v))\<rparr>"
  have run: "handleRemoval tbl now input slots = (Inr q, slots)"
    unfolding q_def using assms(1,2) by (rule handleRemoval_quote)
  have fee: "feeTotal q = Number (of_int h * r)"
    using assms(3,4,5) by (simp add: q_def h_def durationHours_def rateOf_def)
  from assms(6) have "real_of_int (now - e) / 3600000 \<le> 0" by simp
  then have "h \<le> 0" unfolding h_def by (simp add: ceiling_le_iff)
  moreover from assms(5) have "0 < r" by (rule rate_positive)
  ultimately have "of_int h * r \<le> 0"
    by (simp add: mult_le_0_iff)
  with run fee show ?thesis unfolding h_def by blast
qed

theorem negative_stay_is_quoted_witness:
  "\<exists>q. handleRemoval noMapping 0 (ascii ''ABC123'') (initialSlots 1) = (Inr q, initialSlots 1) \<and>
       feeTotal q = Number 0"
proof -
  have h1: "toUpperCase noMapping (trim (ascii ''ABC123'')) \<noteq> []" by (simp add: evals)
  have h2: "find (parkedAs (toUpperCase noMapping (trim (ascii ''ABC123'')))) (initialSlots 1) =
      Some \<lparr>slotId = ascii ''B1'', status = Occupied, vehicleNumber = Some (ascii ''ABC123''),
            vehicleType = Some (ascii ''car''), entryTime = Some 1\<rparr>"
    by (simp add: evals)
  have h5: "map_of parkingRates (ascii ''car'') = Some 2.5" by (simp add: parkingRates_def ascii_def)
  have h6: "(0::int) < 1" by simp
  have c: "\<lceil>- (1 / 3600000 :: real)\<rceil> = 0"
    by (rule ceiling_unique) simp_all
  from negative_stay_is_quoted [OF h1 h2 _ _ h5 h6] c
  show ?thesis by auto
qed

theorem invalid_time_range_counterexample:
  "handleRemoval noMapping 0 (ascii ''ABC123'') (initialSlots 7200000) =
     (Inr \<lparr>feeVehicle = ascii ''ABC123'', feeEntryTime = Some 7200000, feeExitTime = 0,
            feeTotal = Number (- 5)\<rparr>,
      initialSlots 7200000)"
  by (simp add: handleRemoval_def durationHours_def rateOf_def parkingRates_def evals)

text \<open>
  C4. The handler never checks the vehicle type against \<^verbatim>\<open>parkingRates\<close>. For a type
  that is no key of the table the rate is \<^verbatim>\<open>undefined\<close> and the quote is given all the
  same, with the fee \<^verbatim>\<open>NaN\<close>; no alert is shown and the registry is as before.
\<close>

theorem unknown_type_is_quoted_as_NaN:
  assumes "toUpperCase tbl (trim input) \<noteq> []"
    and "find (parkedAs (toUpperCase tbl (trim input))) slots = Some v"
    and "vehicleType v = Some t" and "map_of parkingRates t = None"
  shows "handleRemoval tbl now input slots =
     (Inr \<lparr>feeVehicle = toUpperCase tbl (trim input), feeEntryTime = entryTime v, feeExitTime = now,
            feeTotal = NaN\<rparr>,
      slots)"
proof -
  from assms(3,4) have "rateOf (vehicleType v) = NaN"
    by (simp add: rateOf_def)
  then have "times (ceil (durationHours (entryTime v) now)) (rateOf (vehicleType v)) = NaN"
    by (cases "ceil (durationHours (entryTime v) now)") simp_all
  with handleRemoval_quote [OF assms(1,2), where now = now] show ?thesis by simp
qed

theorem unknown_type_is_quoted_as_NaN_witness:
  "handleRemoval noMapping 9 (ascii ''xy1'')
     [\<lparr>slotId = ascii ''A1'', status = Occupied, vehicleNumber = Some (ascii ''XY1''),
       vehicleType = Some (ascii ''Car''), entryTime = Some 5\<rparr>] =
     (Inr \<lparr>feeVehicle = ascii ''XY1'', feeEntryTime = Some 5, feeExitTime = 9, feeTotal = NaN\<rparr>,
      [\<lparr>slotId = ascii ''A1'', status = Occupied, vehicleNumber = Some (ascii ''XY1''),
        vehicleType = Some (ascii ''Car''), entryTime = Some 5\<rparr>])"
proof -
  have h1: "toUpperCase noMapping (trim (ascii ''xy1'')) \<noteq> []" by (simp add: evals)
  have h2: "find (parkedAs (toUpperCase noMapping (trim (ascii ''xy1''))))
      [\<lparr>slotId = ascii ''A1'', status = Occupied, vehicleNumber = Some (ascii ''XY1''),
        vehicleType = Some (ascii ''Car''), entryTime = Some 5\<rparr>] =
      Some \<lparr>slotId = ascii ''A1'', status = Occupied, vehicleNumber = Some (ascii ''XY1''),
        vehicleType = Some (ascii ''Car''), entryTime = Some 5\<rparr>"
    by (simp add: evals)
  have h4: "map_of parkingRates (ascii ''Car'') = None" by (simp add: parkingRates_def ascii_def)
  from unknown_type_is_quoted_as_NaN [OF h1 h2 _ h4, where now = 9]
  show ?thesis by (simp add: evals)
qed

theorem unknown_type_counterexample:
  "handleRemoval noMapping 3600005 (ascii ''xy1'') (snd (handleParking noMapping 5 (ascii ''xy1'') (ascii ''van'') (initialSlots 0))) =
     (Inr \<lparr>feeVehicle = ascii ''XY1'', feeEntryTime = Some 5, feeExitTime = 3600005, feeTotal = NaN\<rparr>,
      [\<lparr>slotId = ascii ''A1'', status = Occupied, vehicleNumber = Some (ascii ''XY1''),
        vehicleType = Some (ascii ''van''), entryTime = Some 5\<rparr>,
       \<lparr>slotId = ascii ''A2'', status = Available, vehicleNumber = None, vehicleType = None,
        entryTime = None\<rparr>,
       \<lparr>slotId = ascii ''B1'', status = Occupied, vehicleNumber = Some (ascii ''ABC123''),
        vehicleType = Some (ascii ''car''), entryTime = Some 0\<rparr>,
       \<lparr>slotId = ascii ''B2'', status = Available, vehicleNumber = None, vehicleType = None,
        entryTime = None\<rparr>])"
  by (simp add: handleRemoval_def handleParking_def durationHours_def rateOf_def
      parkingRates_def evals)

section \<open>Quote, cancel and confirm\<close>

lemma parked_index:
  assumes "find P xs = Some v"
  shows "\<exists>i<length xs. findIndex P xs = Some i \<and> xs ! i = v \<and> P v \<and> (\<forall>j<i. \<not> P (xs ! j))"
proof -
  from assms obtain i where i: "findIndex P xs = Some i" "xs ! i = v"
    by (auto simp: find_findIndex)
  from findIndex_Some [OF i(1)] i show ?thesis by auto
qed

text \<open>
  C5. A quote leaves the registry as it was: the slot it matched (the first occupied
  slot holding the vehicle number) is still occupied, with the vehicle number and the
  entry time the quote shows. Cancelling after the quote leaves the registry as it was
  too. Confirming is what changes it: it makes that slot available and removes its
  vehicle number, vehicle type and entry time.
\<close>

theorem quote_and_cancel_keep_registry:
  assumes "handleRemoval tbl now input slots = (Inr q, slots')"
  shows "slots' = slots \<and> cancelRemoval slots' = slots \<and>
    (\<exists>i<length slots.
       status (slots' ! i) = Occupied \<and>
       vehicleNumber (slots' ! i) = Some (feeVehicle q) \<and>
       feeVehicle q = toUpperCase tbl (trim input) \<and>
       entryTime (slots' ! i) = feeEntryTime q \<and>
       (\<forall>j<i. \<not> parkedAs (feeVehicle q) (slots ! j)) \<and>
       confirmPayment tbl input slots' =
         slots[i := (slots ! i)\<lparr>status := Available, vehicleNumber := None,
                                  vehicleType := None, entryTime := None\<rparr>] \<and>
       confirmPayment tbl input slots' \<noteq> slots)"
proof -
  let ?n = "toUpperCase tbl (trim input)"
  from assms have ne: "?n \<noteq> []"
    by (auto simp: handleRemoval_def Let_def split: if_splits)
  from assms ne obtain v where v: "find (parkedAs ?n) slots = Some v"
    by (cases "find (parkedAs ?n) slots") (auto simp: handleRemoval_def Let_def)
  from handleRemoval_quote [OF ne v, where now = now] assms
  have same: "slots' = slots" and q: "feeVehicle q = ?n" "feeEntryTime q = entryTime v"
    by auto
  from parked_index [OF v] obtain i where i: "i < length slots"
    "findIndex (parkedAs ?n) slots = Some i" "slots ! i = v" "parkedAs ?n v"
    "\<forall>j<i. \<not> parkedAs ?n (slots ! j)"
    by blast
  let ?s = "slots[i := (slots ! i)\<lparr>status := Available, vehicleNumber := None,
                                  vehicleType := None, entryTime := None\<rparr>]"
  from i(2) have conf: "confirmPayment tbl input slots = ?s"
    by (simp add: confirmPayment_def Let_def)
  from i(1) have "status (?s ! i) = Available" by simp
  with i(3,4) have "?s \<noteq> slots" by auto
  with same q i conf show ?thesis
    by (auto simp: cancelRemoval_def)
qed

theorem quote_and_cancel_keep_registry_witness:
  "cancelRemoval (snd (handleRemoval noMapping 3660000 (ascii '' abc123'') (initialSlots 0))) = initialSlots 0 \<and>
   confirmPayment noMapping (ascii '' abc123'') (snd (handleRemoval noMapping 3660000 (ascii '' abc123'') (initialSlots 0))) =
     [\<lparr>slotId = ascii ''A1'', status = Available, vehicleNumber = None, vehicleType = None,
       entryTime = None\<rparr>,
      \<lparr>slotId = ascii ''A2'', status = Available, vehicleNumber = None, vehicleType = None,
       entryTime = None\<rparr>,
      \<lparr>slotId = ascii ''B1'', status = Available, vehicleNumber = None, vehicleType = None,
       entryTime = None\<rparr>,
      \<lparr>slotId = ascii ''B2'', status = Available, vehicleNumber = None, vehicleType = None,
       entryTime = None\<rparr>]"
proof -
  have run: "handleRemoval noMapping 3660000 (ascii '' abc123'') (initialSlots 0) =
     (Inr \<lparr>feeVehicle = ascii ''ABC123'', feeEntryTime = Some 0, feeExitTime = 3660000,
            feeTotal = Number 5\<rparr>,
      snd (handleRemoval noMapping 3660000 (ascii '' abc123'') (initialSlots 0)))"
    by (simp add: handleRemoval_def durationHours_def rateOf_def parkingRates_def evals)
  from quote_and_cancel_keep_registry [OF run]
  have "snd (handleRemoval noMapping 3660000 (ascii '' abc123'') (initialSlots 0)) = initialSlots 0"
    "cancelRemoval (snd (handleRemoval noMapping 3660000 (ascii '' abc123'') (initialSlots 0))) = initialSlots 0"
    by blast+
  then show ?thesis
    by (simp add: confirmPayment_def evals)
qed

section \<open>One slot per vehicle\<close>

text \<open>
  C6. In every registry the page can reach, a vehicle number is held by at most one
  occupied slot: two positions whose slots are occupied with the same number are the
  same position. There, \<^verbatim>\<open>handleParking\<close> with a vehicle number that an occupied slot
  holds (after trimming and capitalising) leaves the registry as it was, and shows
  'This vehicle is already parked' when the vehicle type is not empty. With an empty
  vehicle type, the check of the fields comes first and shows 'Please fill in all
  fields', as for ABC123 with no type in the registry the page loads.
\<close>

theorem one_slot_per_vehicle:
  assumes "reachable tbl slots"
  shows "(i < length slots \<and> j < length slots \<and>
            parkedAs n (slots ! i) \<and> parkedAs n (slots ! j) \<longrightarrow> i = j) \<and>
         (list_ex (parkedAs (toUpperCase tbl (trim input))) slots \<longrightarrow>
            handleParking tbl now input t slots =
              (if t = [] then Inl FillAllFields else Inl AlreadyParked, slots))"
proof -
  from assms have inv: "invariant slots" by (rule reachable_invariant)
  then have one: "length (filter (parkedAs n) slots) \<le> 1"
    by (simp add: invariant_iff)
  have first: "i < length slots \<and> j < length slots \<and>
            parkedAs n (slots ! i) \<and> parkedAs n (slots ! j) \<longrightarrow> i = j"
    using at_most_one_index [OF one, of i j] by blast
  have second: "handleParking tbl now input t slots =
      (if t = [] then Inl FillAllFields else Inl AlreadyParked, slots)"
    if held: "list_ex (parkedAs (toUpperCase tbl (trim input))) slots"
  proof -
    from held obtain s where "s \<in> set slots" "parkedAs (toUpperCase tbl (trim input)) s"
      by (auto simp: list_ex_iff)
    with inv have "toUpperCase tbl (trim input) \<noteq> []"
      by (auto simp: invariant_iff)
    with held show ?thesis
      by (simp add: handleParking_def Let_def)
  qed
  from first second show ?thesis by blast
qed

theorem one_slot_per_vehicle_witness:
  "reachable noMapping (snd (handleParking noMapping 5 (ascii ''xy1'') (ascii ''car'') (initialSlots 0))) \<and>
   handleParking noMapping 9 (0xA0 # ascii ''Xy1 '') (ascii ''truck'')
       (snd (handleParking noMapping 5 (ascii ''xy1'') (ascii ''car'') (initialSlots 0))) =
     (Inl AlreadyParked,
      [\<lparr>slotId = ascii ''A1'', status = Occupied, vehicleNumber = Some (ascii ''XY1''),
        vehicleType = Some (ascii ''car''), entryTime = Some 5\<rparr>,
       \<lparr>slotId = ascii ''A2'', status = Available, vehicleNumber = None, vehicleType = None,
        entryTime = None\<rparr>,
       \<lparr>slotId = ascii ''B1'', status = Occupied, vehicleNumber = Some (ascii ''ABC123''),
        vehicleType = Some (ascii ''car''), entryTime = Some 0\<rparr>,
       \<lparr>slotId = ascii ''B2'', status = Available, vehicleNumber = None, vehicleType = None,
        entryTime = None\<rparr>]) \<and>
   handleParking noMapping 9 (ascii ''xy1'') []
       (snd (handleParking noMapping 5 (ascii ''xy1'') (ascii ''car'') (initialSlots 0))) =
     (Inl FillAllFields,
      snd (handleParking noMapping 5 (ascii ''xy1'') (ascii ''car'') (initialSlots 0)))"
proof -
  define s where "s = snd (handleParking noMapping 5 (ascii ''xy1'') (ascii ''car'') (initialSlots 0))"
  have r: "reachable noMapping s"
    unfolding s_def by (rule reachable.park) (rule reachable.init)
  have s: "s =
      [\<lparr>slotId = ascii ''A1'', status = Occupied, vehicleNumber = Some (ascii ''XY1''),
        vehicleType = Some (ascii ''car''), entryTime = Some 5\<rparr>,
       \<lparr>slotId = ascii ''A2'', status = Available, vehicleNumber = None, vehicleType = None,
        entryTime = None\<rparr>,
       \<lparr>slotId = ascii ''B1'', status = Occupied, vehicleNumber = Some (ascii ''ABC123''),
        vehicleType = Some (ascii ''car''), entryTime = Some 0\<rparr>,
       \<lparr>slotId = ascii ''B2'', status = Available, vehicleNumber = None, vehicleType = None,
        entryTime = None\<rparr>]"
    unfolding s_def by (simp add: handleParking_def evals)
  have held: "list_ex (parkedAs (toUpperCase noMapping (trim (0xA0 # ascii ''Xy1 '')))) s"
    unfolding s by (simp add: evals)
  have held': "list_ex (parkedAs (toUpperCase noMapping (trim (ascii ''xy1'')))) s"
    unfolding s by (simp add: evals)
  have t: "ascii ''truck'' \<noteq> []" by (simp add: ascii_def)
  from one_slot_per_vehicle [OF r, where input = "0xA0 # ascii ''Xy1 ''" and t = "ascii ''truck''"
      and now = 9] held t
  have a: "handleParking noMapping 9 (0xA0 # ascii ''Xy1 '') (ascii ''truck'') s =
      (Inl AlreadyParked, s)"
    by simp
  from one_slot_per_vehicle [OF r, where input = "ascii ''xy1''" and t = "[]" and now = 9] held'
  have b: "handleParking noMapping 9 (ascii ''xy1'') [] s = (Inl FillAllFields, s)"
    by simp
  from r a b show ?thesis
    unfolding s_def [symmetric] unfolding s by simp
qed

theorem duplicate_with_empty_type_counterexample:
  "parkedAs (ascii ''ABC123'') (initialSlots 0 ! 2) \<and>
   handleParking noMapping 9 (ascii ''ABC123'') [] (initialSlots 0) =
     (Inl FillAllFields, initialSlots 0)"
  by (simp add: handleParking_def evals)

section \<open>Adding and removing slots\<close>

lemma list_ex_slotId: "list_ex (\<lambda>slot. slotId slot = k) slots \<longleftrightarrow> k \<in> set (map slotId slots)"
  by (auto simp: list_ex_iff)

text \<open>
  C7. \<^verbatim>\<open>removeParkingSlot\<close> trims and capitalises its input. A blank input is answered
  by 'Please enter a slot ID'. Otherwise: when no slot has the id, by 'Slot not
  found'; when the first slot with the id is occupied, by 'Cannot remove an occupied
  slot'; when it is available, that slot is taken out of the array and the others stay
  in their order. After each of the three alerts the registry is as it was.
\<close>

theorem removeSlot_outcomes:
  "(toUpperCase tbl (trim input) = [] \<longrightarrow>
      removeParkingSlot tbl input slots = (Inl EnterSlotId, slots)) \<and>
   (toUpperCase tbl (trim input) \<noteq> [] \<and> toUpperCase tbl (trim input) \<notin> set (map slotId slots) \<longrightarrow>
      removeParkingSlot tbl input slots = (Inl SlotNotFound, slots)) \<and>
   (toUpperCase tbl (trim input) \<noteq> [] \<and> i < length slots \<and>
    slotId (slots ! i) = toUpperCase tbl (trim input) \<and>
    (\<forall>j<i. slotId (slots ! j) \<noteq> toUpperCase tbl (trim input)) \<longrightarrow>
      (status (slots ! i) = Occupied \<longrightarrow>
         removeParkingSlot tbl input slots = (Inl SlotOccupied, slots)) \<and>
      (status (slots ! i) = Available \<longrightarrow>
         removeParkingSlot tbl input slots =
           (Inr (toUpperCase tbl (trim input)), take i slots @ drop (Suc i) slots))) \<and>
   (fst (removeParkingSlot tbl input slots) = Inl e \<longrightarrow> snd (removeParkingSlot tbl input slots) = slots)"
proof -
  let ?k = "toUpperCase tbl (trim input)"
  have blank: "?k = [] \<longrightarrow> removeParkingSlot tbl input slots = (Inl EnterSlotId, slots)"
    by (simp add: removeParkingSlot_def)
  have missing: "?k \<noteq> [] \<and> ?k \<notin> set (map slotId slots) \<longrightarrow>
      removeParkingSlot tbl input slots = (Inl SlotNotFound, slots)"
  proof
    assume a: "?k \<noteq> [] \<and> ?k \<notin> set (map slotId slots)"
    then have "findIndex (\<lambda>slot. slotId slot = ?k) slots = None"
      by (simp add: findIndex_None list_ex_slotId)
    with a show "removeParkingSlot tbl input slots = (Inl SlotNotFound, slots)"
      by (simp add: removeParkingSlot_def Let_def)
  qed
  have found: "?k \<noteq> [] \<and> i < length slots \<and> slotId (slots ! i) = ?k \<and>
    (\<forall>j<i. slotId (slots ! j) \<noteq> ?k) \<longrightarrow>
      (status (slots ! i) = Occupied \<longrightarrow>
         removeParkingSlot tbl input slots = (Inl SlotOccupied, slots)) \<and>
      (status (slots ! i) = Available \<longrightarrow>
         removeParkingSlot tbl input slots = (Inr ?k, take i slots @ drop (Suc i) slots))"
  proof
    assume a: "?k \<noteq> [] \<and> i < length slots \<and> slotId (slots ! i) = ?k \<and>
      (\<forall>j<i. slotId (slots ! j) \<noteq> ?k)"
    then have "findIndex (\<lambda>slot. slotId slot = ?k) slots = Some i"
      by (intro findIndex_first) auto
    with a show "(status (slots ! i) = Occupied \<longrightarrow>
         removeParkingSlot tbl input slots = (Inl SlotOccupied, slots)) \<and>
      (status (slots ! i) = Available \<longrightarrow>
         removeParkingSlot tbl input slots = (Inr ?k, take i slots @ drop (Suc i) slots))"
      by (simp add: removeParkingSlot_def Let_def splice1_def)
  qed
  have failure: "fst (removeParkingSlot tbl input slots) = Inl e \<longrightarrow>
      snd (removeParkingSlot tbl input slots) = slots"
    by (simp add: removeParkingSlot_def Let_def split: option.splits)
  from blank missing found failure show ?thesis by blast
qed

theorem removeSlot_outcomes_witness:
  "removeParkingSlot noMapping (ascii ''   '') (initialSlots 0) = (Inl EnterSlotId, initialSlots 0) \<and>
   removeParkingSlot noMapping (ascii ''c9'') (initialSlots 0) = (Inl SlotNotFound, initialSlots 0) \<and>
   removeParkingSlot noMapping (ascii '' b1'') (initialSlots 0) = (Inl SlotOccupied, initialSlots 0) \<and>
   removeParkingSlot noMapping (0xA0 # ascii ''a2 '') (initialSlots 0) =
     (Inr (ascii ''A2''),
      [\<lparr>slotId = ascii ''A1'', status = Available, vehicleNumber = None, vehicleType = None,
        entryTime = None\<rparr>,
       \<lparr>slotId = ascii ''B1'', status = Occupied, vehicleNumber = Some (ascii ''ABC123''),
        vehicleType = Some (ascii ''car''), entryTime = Some 0\<rparr>,
       \<lparr>slotId = ascii ''B2'', status = Available, vehicleNumber = None, vehicleType = None,
        entryTime = None\<rparr>])"
proof -
  have a: "removeParkingSlot noMapping (ascii ''   '') (initialSlots 0) =
      (Inl EnterSlotId, initialSlots 0)"
    using removeSlot_outcomes [where tbl = noMapping and input = "ascii ''   ''"
        and slots = "initialSlots 0"]
    by (simp add: evals)
  have b: "removeParkingSlot noMapping (ascii ''c9'') (initialSlots 0) =
      (Inl SlotNotFound, initialSlots 0)"
    using removeSlot_outcomes [where tbl = noMapping and input = "ascii ''c9''"
        and slots = "initialSlots 0"]
    by (simp add: evals)
  have c: "removeParkingSlot noMapping (ascii '' b1'') (initialSlots 0) =
      (Inl SlotOccupied, initialSlots 0)"
    using removeSlot_outcomes [where tbl = noMapping and input = "ascii '' b1''"
        and slots = "initialSlots 0" and i = "Suc (Suc 0)"]
    by (simp add: evals All_less_Suc)
  have d: "removeParkingSlot noMapping (0xA0 # ascii ''a2 '') (initialSlots 0) =
     (Inr (ascii ''A2''), take 1 (initialSlots 0) @ drop (Suc 1) (initialSlots 0))"
    using removeSlot_outcomes [where tbl = noMapping and input = "0xA0 # ascii ''a2 ''"
        and slots = "initialSlots 0" and i = 1]
    by (simp add: evals)
  from a b c d show ?thesis by (simp add: initialSlots_def)
qed

theorem removeSlot_blank_counterexample:
  "toUpperCase noMapping (trim (ascii ''   '')) \<notin> set (map slotId (initialSlots 0)) \<and>
   removeParkingSlot noMapping (ascii ''   '') (initialSlots 0) = (Inl EnterSlotId, initialSlots 0)"
  by (simp add: removeParkingSlot_def evals)

text \<open>
  C9. \<^verbatim>\<open>addParkingSlot\<close> trims and capitalises its input. A blank input is answered by
  'Please enter a slot ID', an id some slot already has (so also an input that differs
  from it by case or by white space around it) by 'Slot already exists'; in both cases
  the registry is as it was. Any other id is appended to the array as an available slot
  without vehicle fields. White space around the input makes no difference to the
  outcome.
\<close>

theorem addSlot_outcomes:
  "(toUpperCase tbl (trim input) = [] \<longrightarrow>
      addParkingSlot tbl input slots = (Inl EnterSlotId, slots)) \<and>
   (toUpperCase tbl (trim input) \<noteq> [] \<and> toUpperCase tbl (trim input) \<in> set (map slotId slots) \<longrightarrow>
      addParkingSlot tbl input slots = (Inl SlotExists, slots)) \<and>
   (toUpperCase tbl (trim input) \<noteq> [] \<and> toUpperCase tbl (trim input) \<notin> set (map slotId slots) \<longrightarrow>
      addParkingSlot tbl input slots =
        (Inr (toUpperCase tbl (trim input)),
         slots @ [\<lparr>slotId = toUpperCase tbl (trim input), status = Available,
                    vehicleNumber = None, vehicleType = None, entryTime = None\<rparr>])) \<and>
   ((\<forall>c \<in> set ws. isWhiteSpace c) \<and> (\<forall>c \<in> set ws'. isWhiteSpace c) \<longrightarrow>
      addParkingSlot tbl (ws @ input @ ws') slots = addParkingSlot tbl input slots)"
proof -
  have outcomes: "(toUpperCase tbl (trim input) = [] \<longrightarrow>
      addParkingSlot tbl input slots = (Inl EnterSlotId, slots)) \<and>
   (toUpperCase tbl (trim input) \<noteq> [] \<and> toUpperCase tbl (trim input) \<in> set (map slotId slots) \<longrightarrow>
      addParkingSlot tbl input slots = (Inl SlotExists, slots)) \<and>
   (toUpperCase tbl (trim input) \<noteq> [] \<and> toUpperCase tbl (trim input) \<notin> set (map slotId slots) \<longrightarrow>
      addParkingSlot tbl input slots =
        (Inr (toUpperCase tbl (trim input)),
         slots @ [\<lparr>slotId = toUpperCase tbl (trim input), status = Available,
                    vehicleNumber = None, vehicleType = None, entryTime = None\<rparr>]))"
    by (simp add: addParkingSlot_def Let_def list_ex_slotId)
  have insensitive: "(\<forall>c \<in> set ws. isWhiteSpace c) \<and> (\<forall>c \<in> set ws'. isWhiteSpace c) \<longrightarrow>
      addParkingSlot tbl (ws @ input @ ws') slots = addParkingSlot tbl input slots"
    by (simp add: addParkingSlot_def trim_white_space_around)
  from outcomes insensitive show ?thesis by blast
qed

theorem addSlot_outcomes_witness:
  "addParkingSlot noMapping (ascii '' a1 '') (initialSlots 0) = (Inl SlotExists, initialSlots 0) \<and>
   addParkingSlot noMapping (0xA0 # ascii ''b2'') (initialSlots 0) = (Inl SlotExists, initialSlots 0) \<and>
   addParkingSlot noMapping [] (initialSlots 0) = (Inl EnterSlotId, initialSlots 0) \<and>
   addParkingSlot noMapping [0xE9, 0x31, 0x20] (initialSlots 0) =
     (Inr [0xC9, 0x31],
      initialSlots 0 @ [\<lparr>slotId = [0xC9, 0x31], status = Available, vehicleNumber = None,
                         vehicleType = None, entryTime = None\<rparr>]) \<and>
   addParkingSlot noMapping ([0x3000] @ ascii ''c1'' @ [0x09, 0xA0]) (initialSlots 0) =
     addParkingSlot noMapping (ascii ''c1'') (initialSlots 0)"
proof -
  have a: "addParkingSlot noMapping (ascii '' a1 '') (initialSlots 0) =
      (Inl SlotExists, initialSlots 0)"
    using addSlot_outcomes [where tbl = noMapping and input = "ascii '' a1 ''"
        and slots = "initialSlots 0"]
    by (simp add: evals)
  have b: "addParkingSlot noMapping (0xA0 # ascii ''b2'') (initialSlots 0) =
      (Inl SlotExists, initialSlots 0)"
    using addSlot_outcomes [where tbl = noMapping and input = "0xA0 # ascii ''b2''"
        and slots = "initialSlots 0"]
    by (simp add: evals)
  have c: "addParkingSlot noMapping [] (initialSlots 0) = (Inl EnterSlotId, initialSlots 0)"
    using addSlot_outcomes [where tbl = noMapping and input = "[]" and slots = "initialSlots 0"]
    by (simp add: evals)
  have d: "addParkingSlot noMapping [0xE9, 0x31, 0x20] (initialSlots 0) =
     (Inr [0xC9, 0x31],
      initialSlots 0 @ [\<lparr>slotId = [0xC9, 0x31], status = Available, vehicleNumber = None,
                         vehicleType = None, entryTime = None\<rparr>])"
    using addSlot_outcomes [where tbl = noMapping and input = "[0xE9, 0x31, 0x20]"
        and slots = "initialSlots 0"]
    by (simp add: evals)
  have e: "addParkingSlot noMapping ([0x3000] @ ascii ''c1'' @ [0x09, 0xA0]) (initialSlots 0) =
      addParkingSlot noMapping (ascii ''c1'') (initialSlots 0)"
    using addSlot_outcomes [where tbl = noMapping and input = "ascii ''c1''"
        and slots = "initialSlots 0" and ws = "[0x3000]" and ws' = "[0x09, 0xA0]"]
    by (simp add: isWhiteSpace_def)
  from a b c d e show ?thesis by blast
qed

theorem addSlot_blank_counterexample:
  "addParkingSlot noMapping (ascii ''  '') (initialSlots 0) = (Inl EnterSlotId, initialSlots 0) \<and>
   fst (addParkingSlot noMapping (ascii ''  '') (initialSlots 0)) \<noteq> Inl SlotExists"
  by (simp add: addParkingSlot_def evals)

section \<open>Admission, quote and confirmation in sequence\<close>

text \<open>
  After an admission the first occupied slot with the vehicle number is the slot the
  admission chose, since no slot held the number before. So a quote for an input with
  the same normal form finds it, and a confirmation frees it.
\<close>

lemma park_quote_confirm:
  assumes avail: "list_ex (\<lambda>s. status s = Available) slots"
    and ne: "toUpperCase tbl (trim input) \<noteq> []" "t \<noteq> []"
    and fresh: "\<not> list_ex (parkedAs (toUpperCase tbl (trim input))) slots"
    and same: "toUpperCase tbl (trim input') = toUpperCase tbl (trim input)"
  shows "\<exists>i<length slots.
     status (slots ! i) = Available \<and>
     handleParking tbl now input t slots =
       (Inr (slotId (slots ! i)),
        slots[i := (slots ! i)\<lparr>status := Occupied, vehicleNumber := Some (toUpperCase tbl (trim input)),
                                 vehicleType := Some t, entryTime := Some now\<rparr>]) \<and>
     handleRemoval tbl now' input' (snd (handleParking tbl now input t slots)) =
       (Inr \<lparr>feeVehicle = toUpperCase tbl (trim input), feeEntryTime = Some now, feeExitTime = now',
              feeTotal = times (ceil (durationHours (Some now) now')) (rateOf (Some t))\<rparr>,
        snd (handleParking tbl now input t slots)) \<and>
     confirmPayment tbl input' (snd (handleParking tbl now input t slots)) =
       slots[i := (slots ! i)\<lparr>status := Available, vehicleNumber := None,
                                vehicleType := None, entryTime := None\<rparr>]"
proof -
  let ?n = "toUpperCase tbl (trim input)"
  from handleParking_success [OF avail ne fresh, where now = now] obtain i where i: "i < length slots"
    "status (slots ! i) = Available"
    "handleParking tbl now input t slots =
       (Inr (slotId (slots ! i)),
        slots[i := (slots ! i)\<lparr>status := Occupied, vehicleNumber := Some ?n,
                                 vehicleType := Some t, entryTime := Some now\<rparr>])"
    by blast
  let ?v = "(slots ! i)\<lparr>status := Occupied, vehicleNumber := Some ?n,
                         vehicleType := Some t, entryTime := Some now\<rparr>"
  let ?s = "slots[i := ?v]"
  from fresh have nowhere: "\<forall>j<length slots. \<not> parkedAs ?n (slots ! j)"
    by (auto simp: list_ex_iff)
  have idx: "findIndex (parkedAs ?n) ?s = Some i"
  proof (rule findIndex_first)
    show "i < length ?s" using i(1) by simp
    show "parkedAs ?n (?s ! i)" using i(1) by simp
    show "\<forall>j<i. \<not> parkedAs ?n (?s ! j)" using i(1) nowhere by simp
  qed
  then have fnd: "find (parkedAs ?n) ?s = Some ?v"
    using i(1) by (simp add: find_findIndex)
  have quote: "handleRemoval tbl now' input' ?s =
       (Inr \<lparr>feeVehicle = ?n, feeEntryTime = Some now, feeExitTime = now',
              feeTotal = times (ceil (durationHours (Some now) now')) (rateOf (Some t))\<rparr>, ?s)"
    using handleRemoval_quote [where input = input' and slots = ?s and v = ?v and now = now'] ne(1) fnd same by simp
  have conf: "confirmPayment tbl input' ?s =
       slots[i := (slots ! i)\<lparr>status := Available, vehicleNumber := None,
                                vehicleType := None, entryTime := None\<rparr>]"
    using idx i(1) same by (simp add: confirmPayment_def Let_def)
  from i quote conf show ?thesis by auto
qed

text \<open>
  C8. In a registry with an available slot and without a parked ABC123, admitting
  "abc123" as a car takes the first available slot; a quote asked for "ABC123" then
  succeeds, showing that vehicle number and the entry time of the admission, and
  leaves the registry alone; a confirmation for "ABC123" then makes that slot
  available again, with vehicle number, vehicle type and entry time removed. When
  ABC123 is parked already, as it is when the page has loaded, the admission is
  refused.
\<close>

theorem admit_release_confirm_round_trip:
  assumes "list_ex (\<lambda>s. status s = Available) slots"
    and "\<not> list_ex (parkedAs (ascii ''ABC123'')) slots"
  shows "\<exists>i<length slots.
     status (slots ! i) = Available \<and>
     fst (handleParking tbl now (ascii ''abc123'') (ascii ''car'') slots) = Inr (slotId (slots ! i)) \<and>
     parkedAs (ascii ''ABC123'') (snd (handleParking tbl now (ascii ''abc123'') (ascii ''car'') slots) ! i) \<and>
     (\<exists>q. handleRemoval tbl now' (ascii ''ABC123'') (snd (handleParking tbl now (ascii ''abc123'') (ascii ''car'') slots)) =
            (Inr q, snd (handleParking tbl now (ascii ''abc123'') (ascii ''car'') slots)) \<and>
          feeVehicle q = ascii ''ABC123'' \<and> feeEntryTime q = Some now) \<and>
     confirmPayment tbl (ascii ''ABC123'') (snd (handleParking tbl now (ascii ''abc123'') (ascii ''car'') slots)) =
       slots[i := (slots ! i)\<lparr>status := Available, vehicleNumber := None,
                                vehicleType := None, entryTime := None\<rparr>]"
proof -
  have n: "toUpperCase tbl (trim (ascii ''abc123'')) = ascii ''ABC123''" by (simp add: evals)
  have n': "toUpperCase tbl (trim (ascii ''ABC123'')) = ascii ''ABC123''" by (simp add: evals)
  have ne: "toUpperCase tbl (trim (ascii ''abc123'')) \<noteq> []" "ascii ''car'' \<noteq> []"
    by (simp_all add: evals)
  from assms(2) have fresh: "\<not> list_ex (parkedAs (toUpperCase tbl (trim (ascii ''abc123'')))) slots"
    by (simp add: n)
  from n n' have same: "toUpperCase tbl (trim (ascii ''ABC123'')) = toUpperCase tbl (trim (ascii ''abc123''))"
    by simp
  from park_quote_confirm [OF assms(1) ne fresh same, where now = now and now' = now'] obtain i where i:
    "i < length slots" "status (slots ! i) = Available"
    "handleParking tbl now (ascii ''abc123'') (ascii ''car'') slots =
       (Inr (slotId (slots ! i)),
        slots[i := (slots ! i)\<lparr>status := Occupied, vehicleNumber := Some (ascii ''ABC123''),
                                 vehicleType := Some (ascii ''car''), entryTime := Some now\<rparr>])"
    "handleRemoval tbl now' (ascii ''ABC123'') (snd (handleParking tbl now (ascii ''abc123'') (ascii ''car'') slots)) =
       (Inr \<lparr>feeVehicle = ascii ''ABC123'', feeEntryTime = Some now, feeExitTime = now',
              feeTotal = times (ceil (durationHours (Some now) now')) (rateOf (Some (ascii ''car'')))\<rparr>,
        snd (handleParking tbl now (ascii ''abc123'') (ascii ''car'') slots))"
    "confirmPayment tbl (ascii ''ABC123'') (snd (handleParking tbl now (ascii ''abc123'') (ascii ''car'') slots)) =
       slots[i := (slots ! i)\<lparr>status := Available, vehicleNumber := None,
                                vehicleType := None, entryTime := None\<rparr>]"
    unfolding n by blast
  from i(1,3) have "fst (handleParking tbl now (ascii ''abc123'') (ascii ''car'') slots) = Inr (slotId (slots ! i))"
    "parkedAs (ascii ''ABC123'') (snd (handleParking tbl now (ascii ''abc123'') (ascii ''car'') slots) ! i)"
    by simp_all
  moreover from i(4) have "\<exists>q. handleRemoval tbl now' (ascii ''ABC123'') (snd (handleParking tbl now (ascii ''abc123'') (ascii ''car'') slots)) =
            (Inr q, snd (handleParking tbl now (ascii ''abc123'') (ascii ''car'') slots)) \<and>
          feeVehicle q = ascii ''ABC123'' \<and> feeEntryTime q = Some now"
    by simp
  ultimately show ?thesis using i(1,2,5) by blast
qed

theorem admit_release_confirm_round_trip_witness:
  "fst (handleParking noMapping 10 (ascii ''abc123'') (ascii ''car'') (confirmPayment noMapping (ascii ''ABC123'') (initialSlots 0))) = Inr (ascii ''A1'') \<and>
   confirmPayment noMapping (ascii ''ABC123'')
     (snd (handleParking noMapping 10 (ascii ''abc123'') (ascii ''car'') (confirmPayment noMapping (ascii ''ABC123'') (initialSlots 0)))) =
     confirmPayment noMapping (ascii ''ABC123'') (initialSlots 0)"
proof -
  let ?s = "confirmPayment noMapping (ascii ''ABC123'') (initialSlots 0)"
  have s: "?s =
     [\<lparr>slotId = ascii ''A1'', status = Available, vehicleNumber = None, vehicleType = None,
       entryTime = None\<rparr>,
      \<lparr>slotId = ascii ''A2'', status = Available, vehicleNumber = None, vehicleType = None,
       entryTime = None\<rparr>,
      \<lparr>slotId = ascii ''B1'', status = Available, vehicleNumber = None, vehicleType = None,
       entryTime = None\<rparr>,
      \<lparr>slotId = ascii ''B2'', status = Available, vehicleNumber = None, vehicleType = None,
       entryTime = None\<rparr>]"
    by (simp add: confirmPayment_def evals)
  have h1: "list_ex (\<lambda>s. status s = Available) ?s"
    unfolding s by simp
  have h2: "\<not> list_ex (parkedAs (ascii ''ABC123'')) ?s"
    unfolding s by simp
  from admit_release_confirm_round_trip [OF h1 h2, where now = 10 and now' = 20] obtain i where i:
    "i < length ?s"
    "fst (handleParking noMapping 10 (ascii ''abc123'') (ascii ''car'') ?s) = Inr (slotId (?s ! i))"
    "parkedAs (ascii ''ABC123'') (snd (handleParking noMapping 10 (ascii ''abc123'') (ascii ''car'') ?s) ! i)"
    "confirmPayment noMapping (ascii ''ABC123'') (snd (handleParking noMapping 10 (ascii ''abc123'') (ascii ''car'') ?s)) =
       ?s[i := (?s ! i)\<lparr>status := Available, vehicleNumber := None,
                            vehicleType := None, entryTime := None\<rparr>]"
    by blast
  have run: "snd (handleParking noMapping 10 (ascii ''abc123'') (ascii ''car'') ?s) =
     [\<lparr>slotId = ascii ''A1'', status = Occupied, vehicleNumber = Some (ascii ''ABC123''),
       vehicleType = Some (ascii ''car''), entryTime = Some 10\<rparr>,
      \<lparr>slotId = ascii ''A2'', status = Available, vehicleNumber = None, vehicleType = None,
       entryTime = None\<rparr>,
      \<lparr>slotId = ascii ''B1'', status = Available, vehicleNumber = None, vehicleType = None,
       entryTime = None\<rparr>,
      \<lparr>slotId = ascii ''B2'', status = Available, vehicleNumber = None, vehicleType = None,
       entryTime = None\<rparr>]"
    unfolding s by (simp add: handleParking_def evals)
  from i(1) have "i = 0 \<or> i = 1 \<or> i = 2 \<or> i = 3"
    unfolding s by auto
  with i(3) have "i = 0"
    unfolding run by auto
  with i(2,4) show ?thesis
    unfolding s by simp
qed

theorem round_trip_already_parked_counterexample:
  "Available \<in> set (map status (initialSlots 0)) \<and>
   handleParking noMapping 5 (ascii ''abc123'') (ascii ''car'') (initialSlots 0) = (Inl AlreadyParked, initialSlots 0)"
  by (simp add: handleParking_def evals)

end
